theory Spec2Isabelle
  imports Main
begin

section \<open>Shared data: errors, risk levels, patterns, findings\<close>

text \<open>
  Python exceptions are values. Every constructor below is a subclass of
  \<open>Exception\<close>, so an \<open>except Exception\<close> clause catches each of them.
  \<open>re_error\<close> is \<open>re.error\<close>, raised by \<open>re.compile\<close>.
\<close>

datatype error =
    FileNotFoundError
  | JSONDecodeError
  | KeyError string
  | re_error string
  | ValueError string
  | UnicodeDecodeError
  | ImportError
  | OtherException string

datatype RiskLevel = HIGH | MEDIUM | LOW

text \<open>\<open>RiskLevel.X.value\<close>.\<close>

fun RiskLevel_value :: "RiskLevel \<Rightarrow> string" where
  "RiskLevel_value HIGH = ''HIGH''"
| "RiskLevel_value MEDIUM = ''MEDIUM''"
| "RiskLevel_value LOW = ''LOW''"

text \<open>\<open>RiskLevel[key]\<close>: lookup of an enum member by name, \<open>KeyError\<close> otherwise.\<close>

definition RiskLevel_getitem :: "string \<Rightarrow> error + RiskLevel" where
  "RiskLevel_getitem k =
     (if k = ''HIGH'' then Inr HIGH
      else if k = ''MEDIUM'' then Inr MEDIUM
      else if k = ''LOW'' then Inr LOW
      else Inl (KeyError k))"

text \<open>
  The dataclass \<open>PIIPattern\<close> of \<open>pypii/detector/patterns.py\<close>. The dataclass
  \<open>DataPattern\<close> of \<open>scan/pattern.py\<close> has the same four fields.
\<close>

record PIIPattern =
  name :: string
  pattern :: string
  risk_level :: RiskLevel
  description :: string


text \<open>
  A \<open>pathlib.Path\<close>, identified by its normalised string. A \<open>Path\<close> object is
  always truthy.
\<close>

datatype path = Path string

text \<open>The dataclass \<open>DetectionResult\<close>; \<open>file_path\<close> defaults to \<open>None\<close>. The field \<open>context\<close> is \<open>context_text\<close> here and \<open>risk_level\<close> is \<open>result_risk_level\<close>.\<close>

record DetectionResult =
  pattern_name :: string
  matched_text :: string
  start_pos :: int
  end_pos :: int
  result_risk_level :: string
  line_number :: int
  context_text :: string
  file_path :: "path option"

section \<open>Pattern loading\<close>

text \<open>
  A pattern record of the JSON document is a dictionary from field names to strings.
  The \<open>patterns\<close> dictionary keeps its groups in document order, so it is a list of
  (key, record list) pairs. The pattern file is missing, or is not JSON, or parses to
  a document whose \<open>patterns\<close> entry is present or not.
\<close>

type_synonym json_record = "string \<rightharpoonup> string"

type_synonym pattern_groups = "(string \<times> json_record list) list"

datatype pattern_file = Missing | Malformed | Document "pattern_groups option"

text \<open>
  The body of the inner loop: the keyword arguments of the constructor are evaluated in
  the order \<open>p['name']\<close>, \<open>p['pattern']\<close>, \<open>RiskLevel[risk_level]\<close>,
  \<open>p.get('description', '')\<close>.
\<close>

definition make_pattern :: "string \<Rightarrow> json_record \<Rightarrow> error + PIIPattern" where
  "make_pattern rl p =
     (case p ''name'' of
        None \<Rightarrow> Inl (KeyError ''name'')
      | Some n \<Rightarrow>
          (case p ''pattern'' of
             None \<Rightarrow> Inl (KeyError ''pattern'')
           | Some e \<Rightarrow>
               (case RiskLevel_getitem rl of
                  Inl err \<Rightarrow> Inl err
                | Inr lvl \<Rightarrow>
                    Inr \<lparr>name = n, pattern = e, risk_level = lvl,
                         description = (case p ''description'' of None \<Rightarrow> [] | Some d \<Rightarrow> d)\<rparr>)))"

text \<open>\<open>for p in pattern_list: ... patterns.append(pattern)\<close>, on the list built so far.\<close>

fun load_pattern_list :: "string \<Rightarrow> json_record list \<Rightarrow> PIIPattern list \<Rightarrow> error + PIIPattern list" where
  "load_pattern_list rl [] patterns = Inr patterns"
| "load_pattern_list rl (p # ps) patterns =
     (case make_pattern rl p of
        Inl err \<Rightarrow> Inl err
      | Inr pat \<Rightarrow> load_pattern_list rl ps (patterns @ [pat]))"

text \<open>\<open>for risk_level, pattern_list in data['patterns'].items(): ...\<close>\<close>

fun load_groups :: "pattern_groups \<Rightarrow> PIIPattern list \<Rightarrow> error + PIIPattern list" where
  "load_groups [] patterns = Inr patterns"
| "load_groups ((rl, pattern_list) # gs) patterns =
     (case load_pattern_list rl pattern_list patterns of
        Inl err \<Rightarrow> Inl err
      | Inr patterns' \<Rightarrow> load_groups gs patterns')"

text \<open>\<open>PatternLoader.load_patterns\<close> of \<open>pypii/detector/patterns.py\<close>.\<close>

definition load_patterns :: "pattern_file \<Rightarrow> error + PIIPattern list" where
  "load_patterns f =
     (case f of
        Missing \<Rightarrow> Inl FileNotFoundError
      | Malformed \<Rightarrow> Inl JSONDecodeError
      | Document None \<Rightarrow> Inl (KeyError ''patterns'')
      | Document (Some groups) \<Rightarrow> load_groups groups [])"









section \<open>The regular-expression library\<close>

text \<open>
  Python's \<open>re\<close> module is not part of the repository and is a parameter of the model.
  A compiled expression is determined by its pattern string (no flags are passed), so
  the compiled object is represented by that string. \<open>compiles p\<close> says that
  \<open>re.compile(p)\<close> returns, rather than raising \<open>re.error\<close>. \<open>finditer rx line\<close>
  is the list of \<open>match.span()\<close> values of \<open>rx.finditer(line)\<close>, in iteration order.
\<close>

record regex_engine =
  compiles :: "string \<Rightarrow> bool"
  finditer :: "string \<Rightarrow> string \<Rightarrow> (nat \<times> nat) list"


definition finditer_in_line :: "regex_engine \<Rightarrow> bool" where
  "finditer_in_line eng \<longleftrightarrow>
     (\<forall>rx line. \<forall>(s, e) \<in> set (finditer eng rx line). s \<le> e \<and> e \<le> length line)"

text \<open>
  An engine to run the model on: it knows the expressions that are one ordinary
  character, which match each occurrence of that character (as in Python), and it
  rejects the expression \<open>(\<close>, which Python rejects as well. The examples use no other
  expression.
\<close>

definition sample_engine :: regex_engine where
  "sample_engine =
     \<lparr>compiles = (\<lambda>p. p \<noteq> ''(''),
      finditer = (\<lambda>rx line. case rx of
                     [c] \<Rightarrow> map (\<lambda>i. (i, Suc i)) (filter (\<lambda>i. line ! i = c) [0..<length line])
                   | _ \<Rightarrow> [])\<rparr>"

section \<open>Strings\<close>

text \<open>
  Text is a list of characters; a character of the model is one of the code points
  0 to 255. \<open>str.lower\<close> on the ASCII letters, and \<open>needle in hay\<close>.
\<close>

definition lower_char :: "char \<Rightarrow> char" where
  "lower_char c =
     (case map_of (zip ''ABCDEFGHIJKLMNOPQRSTUVWXYZ'' ''abcdefghijklmnopqrstuvwxyz'') c of
        None \<Rightarrow> c
      | Some l \<Rightarrow> l)"

definition lower :: "string \<Rightarrow> string" where
  "lower s = map lower_char s"

definition startswith :: "string \<Rightarrow> string \<Rightarrow> bool" where
  "startswith hay needle \<longleftrightarrow> take (length needle) hay = needle"

fun contains :: "string \<Rightarrow> string \<Rightarrow> bool" where
  "contains needle [] = (needle = [])"
| "contains needle (c # cs) = (startswith (c # cs) needle \<or> contains needle cs)"

text \<open>\<open>sep.join(xs)\<close>\<close>

fun str_join :: "string \<Rightarrow> string list \<Rightarrow> string" where
  "str_join sep [] = []"
| "str_join sep [x] = x"
| "str_join sep (x # y # ys) = x @ sep @ str_join sep (y # ys)"

definition newline :: string where
  "newline = [CHR 0x0A]"

text \<open>
  \<open>str.splitlines()\<close>: a line ends at a line feed, a carriage return (a carriage return
  followed by a line feed is one boundary), a vertical tab, a form feed, a file, group
  or record separator, or a next-line character. The boundary is not part of the line, and
  the text after the last boundary is a line only when it is not empty.
\<close>

definition is_linebreak :: "char \<Rightarrow> bool" where
  "is_linebreak c \<longleftrightarrow>
     c \<in> set [CHR 0x0A, CHR 0x0B, CHR 0x0C, CHR 0x0D, CHR 0x1C, CHR 0x1D, CHR 0x1E, CHR 0x85]"

fun splitlines_from :: "string \<Rightarrow> string \<Rightarrow> string list" where
  "splitlines_from cur [] = (if cur = [] then [] else [cur])"
| "splitlines_from cur [c] = (if is_linebreak c then [cur] else [cur @ [c]])"
| "splitlines_from cur (c # c' # cs) =
     (if c = CHR 0x0D \<and> c' = CHR 0x0A then cur # splitlines_from [] cs
      else if is_linebreak c then cur # splitlines_from [] (c' # cs)
      else splitlines_from (cur @ [c]) (c' # cs))"

definition splitlines :: "string \<Rightarrow> string list" where
  "splitlines text = splitlines_from [] text"

text \<open>
  The slice \<open>xs[i:j]\<close> with Python's rules: a negative index counts from the end, and
  an index outside the list is clamped.
\<close>

definition slice_index :: "nat \<Rightarrow> int \<Rightarrow> nat" where
  "slice_index n i = nat (if i < 0 then max 0 (int n + i) else min (int n) i)"

definition py_slice :: "'a list \<Rightarrow> int \<Rightarrow> int \<Rightarrow> 'a list" where
  "py_slice xs i j =
     (let a = slice_index (length xs) i; b = slice_index (length xs) j
      in take (b - a) (drop a xs))"

section \<open>The detector\<close>

text \<open>
  \<open>PIIDetector\<close>: the loaded patterns and the dictionary from pattern name to compiled
  expression.
\<close>

record PIIDetector =
  patterns :: "PIIPattern list"
  compiled_patterns :: "string \<rightharpoonup> string"

text \<open>
  The dictionary comprehension of \<open>__init__\<close>: the patterns are compiled in list order,
  a later pattern of the same name replaces the earlier entry, and the first expression
  that does not compile raises.
\<close>

fun compile_patterns ::
  "regex_engine \<Rightarrow> PIIPattern list \<Rightarrow> (string \<rightharpoonup> string) \<Rightarrow> error + (string \<rightharpoonup> string)" where
  "compile_patterns eng [] m = Inr m"
| "compile_patterns eng (p # ps) m =
     (if compiles eng (pattern p) then compile_patterns eng ps (m(name p \<mapsto> pattern p))
      else Inl (re_error (pattern p)))"

definition PIIDetector_init :: "regex_engine \<Rightarrow> pattern_file \<Rightarrow> error + PIIDetector" where
  "PIIDetector_init eng pattern_file =
     (case load_patterns pattern_file of
        Inl err \<Rightarrow> Inl err
      | Inr ps \<Rightarrow>
          (case compile_patterns eng ps Map.empty of
             Inl err \<Rightarrow> Inl err
           | Inr m \<Rightarrow> Inr \<lparr>patterns = ps, compiled_patterns = m\<rparr>))"

text \<open>
  The body of the innermost loop of \<open>detect\<close>, for one match with span \<open>(start, end)\<close>.
  \<open>match.group()\<close> is the slice of the line at the span.
\<close>

definition make_result :: "PIIPattern \<Rightarrow> int \<Rightarrow> string \<Rightarrow> int \<Rightarrow> nat \<times> nat \<Rightarrow> DetectionResult" where
  "make_result p line_num line context_chars m =
     (let start = int (fst m); endp = int (snd m);
          context_start = max 0 (start - context_chars);
          context_end = min (int (length line)) (endp + context_chars)
      in \<lparr>pattern_name = name p,
          matched_text = py_slice line start endp,
          start_pos = start,
          end_pos = endp,
          result_risk_level = RiskLevel_value (risk_level p),
          line_number = line_num,
          context_text = py_slice line context_start context_end,
          file_path = None\<rparr>)"

text \<open>\<open>for pattern in self.patterns\<close>, on one line; \<open>results\<close> is the list so far.\<close>

fun detect_patterns ::
  "regex_engine \<Rightarrow> PIIDetector \<Rightarrow> int \<Rightarrow> string \<Rightarrow> int \<Rightarrow> PIIPattern list \<Rightarrow>
   DetectionResult list \<Rightarrow> error + DetectionResult list" where
  "detect_patterns eng d line_num line context_chars [] results = Inr results"
| "detect_patterns eng d line_num line context_chars (p # ps) results =
     (case compiled_patterns d (name p) of
        None \<Rightarrow> Inl (KeyError (name p))
      | Some rx \<Rightarrow>
          detect_patterns eng d line_num line context_chars ps
            (results @ map (make_result p line_num line context_chars) (finditer eng rx line)))"

text \<open>\<open>for line_num, line in enumerate(lines, 1)\<close>\<close>

fun detect_lines ::
  "regex_engine \<Rightarrow> PIIDetector \<Rightarrow> int \<Rightarrow> int \<Rightarrow> string list \<Rightarrow>
   DetectionResult list \<Rightarrow> error + DetectionResult list" where
  "detect_lines eng d context_chars line_num [] results = Inr results"
| "detect_lines eng d context_chars line_num (line # lines) results =
     (case detect_patterns eng d line_num line context_chars (patterns d) results of
        Inl err \<Rightarrow> Inl err
      | Inr results' \<Rightarrow> detect_lines eng d context_chars (line_num + 1) lines results')"

definition detect :: "regex_engine \<Rightarrow> PIIDetector \<Rightarrow> string \<Rightarrow> int \<Rightarrow> error + DetectionResult list" where
  "detect eng d text context_chars = detect_lines eng d context_chars 1 (splitlines text) []"

section \<open>Files and text extraction\<close>

text \<open>
  A file on disk, as the libraries show it: its path and \<open>Path.suffix\<close>, the MIME type
  that \<open>magic.from_file\<close> reports (or the exception it raises), the text that reading
  it as UTF-8 gives, the pages that \<open>pdfplumber\<close> finds (for each page what
  \<open>extract_text()\<close> returns, a string or \<open>None\<close>), and the paragraphs and tables
  (tables of rows of cells) that \<open>docx.Document\<close> finds. Each library call returns or
  raises.
\<close>

record fs_file =
  fpath :: path
  suffix :: string
  magic_from_file :: "error + string"
  read_utf8 :: "error + string"
  pdfplumber_pages :: "error + string option list"
  docx_document :: "error + string list \<times> string list list list"

datatype level = DEBUG | INFO | WARNING | ERROR

text \<open>A logger call is recorded by its level; the log is the list of calls made.\<close>

type_synonym log = "level list"

text \<open>\<open>page.extract_text() or ""\<close>\<close>

definition or_empty :: "string option \<Rightarrow> string" where
  "or_empty t = (case t of None \<Rightarrow> [] | Some s \<Rightarrow> s)"

text \<open>
  The DOCX text of both extractors: the paragraph texts, then one entry per table row
  (its cells joined by a space), all joined by newlines.
\<close>

definition docx_text :: "string list \<times> string list list list \<Rightarrow> string" where
  "docx_text doc =
     (let paragraphs_text = fst doc;
          tables_text = concat (map (\<lambda>table. map (\<lambda>row. str_join '' '' row) table) (snd doc))
      in str_join newline (paragraphs_text @ tables_text))"

subsection \<open>\<open>PIIDetector.detect_file\<close>\<close>

text \<open>
  The PDF branch: \<open>text = ""\<close>, then \<open>text += page.extract_text() or ""\<close> for each page.
\<close>

definition detect_file_pdf_text :: "string option list \<Rightarrow> string" where
  "detect_file_pdf_text pages = foldl (\<lambda>text page. text @ or_empty page) [] pages"

text \<open>
  The part of the \<open>try\<close> block that produces \<open>text\<close>, with the log calls it makes,
  given the MIME type.
\<close>

definition detect_file_text :: "fs_file \<Rightarrow> string \<Rightarrow> log \<times> (error + string)" where
  "detect_file_text f mime_type =
     (if contains ''pdf'' (lower mime_type) then
        (case pdfplumber_pages f of
           Inl err \<Rightarrow> ([DEBUG], Inl err)
         | Inr pages \<Rightarrow> ([DEBUG], Inr (detect_file_pdf_text pages)))
      else if contains ''officedocument.wordprocessingml.document'' (lower mime_type)
              \<or> lower (suffix f) = ''.docx'' then
        (case docx_document f of
           Inl err \<Rightarrow> ([DEBUG], Inl err)
         | Inr doc \<Rightarrow> ([DEBUG, DEBUG], Inr (docx_text doc)))
      else
        (case read_utf8 f of
           Inl err \<Rightarrow> ([DEBUG], Inl err)
         | Inr text \<Rightarrow> ([DEBUG], Inr text)))"

text \<open>
  \<open>detect_file\<close>: the MIME type is read before the \<open>try\<close> block, so an exception of
  \<open>magic.from_file\<close> leaves the function. Inside the block the text is extracted and
  scanned with the default \<open>context_chars = 50\<close>, and every result gets the file's path.
  The handler logs an error, logs the traceback at debug level and returns the empty list.
\<close>

definition detect_file ::
  "regex_engine \<Rightarrow> PIIDetector \<Rightarrow> fs_file \<Rightarrow> log \<times> (error + DetectionResult list)" where
  "detect_file eng d f =
     (case magic_from_file f of
        Inl err \<Rightarrow> ([], Inl err)
      | Inr mime_type \<Rightarrow>
          (case detect_file_text f mime_type of
             (lg, Inl err) \<Rightarrow> ([DEBUG] @ lg @ [ERROR, DEBUG], Inr [])
           | (lg, Inr text) \<Rightarrow>
               (case detect eng d text 50 of
                  Inl err \<Rightarrow> ([DEBUG] @ lg @ [ERROR, DEBUG], Inr [])
                | Inr results \<Rightarrow>
                    ([DEBUG] @ lg,
                     Inr (map (\<lambda>result. result\<lparr>file_path := Some (fpath f)\<rparr>) results)))))"

subsection \<open>\<open>FileHandler\<close>\<close>

datatype FileType = TEXT | PDF | DOCX | UNKNOWN

text \<open>\<open>FileHandler.get_file_type\<close>, given the MIME type that \<open>magic\<close> reported.\<close>

definition file_type_of :: "fs_file \<Rightarrow> string \<Rightarrow> log \<times> FileType" where
  "file_type_of f mime =
     (let mime_type = lower mime in
      if contains ''text/plain'' mime_type then ([DEBUG], TEXT)
      else if contains ''pdf'' mime_type then ([DEBUG], PDF)
      else if contains ''officedocument.wordprocessingml.document'' mime_type
              \<or> lower (suffix f) = ''.docx'' then ([DEBUG], DOCX)
      else ([DEBUG, WARNING], UNKNOWN))"

definition get_file_type :: "fs_file \<Rightarrow> log \<times> (error + FileType)" where
  "get_file_type f =
     (case magic_from_file f of
        Inl err \<Rightarrow> ([], Inl err)
      | Inr mime \<Rightarrow> (fst (file_type_of f mime), Inr (snd (file_type_of f mime))))"

definition extract_from_text :: "fs_file \<Rightarrow> log \<times> (error + string)" where
  "extract_from_text f = ([DEBUG], read_utf8 f)"

text \<open>
  \<open>_extract_from_pdf\<close>: \<open>"\n".join(page.extract_text() or "" for page in pdf.pages)\<close>.
  An \<open>ImportError\<close> is logged and raised again; any other exception is raised as it is.
\<close>

definition extract_from_pdf :: "fs_file \<Rightarrow> log \<times> (error + string)" where
  "extract_from_pdf f =
     (case pdfplumber_pages f of
        Inl err \<Rightarrow> (if err = ImportError then ([ERROR], Inl err) else ([DEBUG], Inl err))
      | Inr pages \<Rightarrow> ([DEBUG, DEBUG], Inr (str_join newline (map or_empty pages))))"

definition extract_from_docx :: "fs_file \<Rightarrow> log \<times> (error + string)" where
  "extract_from_docx f =
     (case docx_document f of
        Inl err \<Rightarrow> (if err = ImportError then ([ERROR], Inl err) else ([DEBUG], Inl err))
      | Inr doc \<Rightarrow> ([DEBUG, DEBUG], Inr (docx_text doc)))"

text \<open>
  \<open>FileHandler.extract_text\<close>: the file type is determined before the \<open>try\<close> block.
  For an unknown type a \<open>ValueError\<close> is raised inside the block, and the handler of the
  block catches every exception, logs an error and returns \<open>None\<close>.
\<close>

definition extract_text_body :: "fs_file \<Rightarrow> FileType \<Rightarrow> log \<times> (error + string)" where
  "extract_text_body f file_type =
     (case file_type of
        TEXT \<Rightarrow> extract_from_text f
      | PDF \<Rightarrow> extract_from_pdf f
      | DOCX \<Rightarrow> extract_from_docx f
      | UNKNOWN \<Rightarrow> ([ERROR], Inl (ValueError (''Unsupported file type: '' @ suffix f))))"

definition extract_text :: "fs_file \<Rightarrow> log \<times> (error + string option)" where
  "extract_text f =
     (case get_file_type f of
        (lg, Inl err) \<Rightarrow> (lg, Inl err)
      | (lg, Inr file_type) \<Rightarrow>
          (case extract_text_body f file_type of
             (lg', Inl err) \<Rightarrow> (lg @ [INFO] @ lg' @ [ERROR], Inr None)
           | (lg', Inr text) \<Rightarrow> (lg @ [INFO] @ lg', Inr (Some text))))"

section \<open>The report generator\<close>

record ReportGenerator =
  results :: "DetectionResult list"
  scanned_files :: "path list"

record ScanSummary =
  total_files :: int
  total_detections :: int
  risk_level_counts :: "string \<rightharpoonup> int"
  pattern_counts :: "string \<rightharpoonup> int"
  scan_time :: string

definition ReportGenerator_init :: ReportGenerator where
  "ReportGenerator_init = \<lparr>results = [], scanned_files = []\<rparr>"

text \<open>
  \<open>add_results\<close>: \<open>if file_path:\<close> is false for \<open>None\<close> and true for every \<open>Path\<close>.
\<close>

definition add_results :: "ReportGenerator \<Rightarrow> DetectionResult list \<Rightarrow> path option \<Rightarrow> ReportGenerator" where
  "add_results g rs fp =
     (let g' = g\<lparr>results := results g @ rs\<rparr>
      in case fp of
           None \<Rightarrow> g'
         | Some p \<Rightarrow> g'\<lparr>scanned_files := scanned_files g' @ [p]\<rparr>)"

text \<open>\<open>counts[k] = counts.get(k, 0) + 1\<close>\<close>

definition bump :: "(string \<rightharpoonup> int) \<Rightarrow> string \<Rightarrow> (string \<rightharpoonup> int)" where
  "bump counts k = counts(k \<mapsto> (case counts k of None \<Rightarrow> 0 | Some c \<Rightarrow> c) + 1)"

text \<open>\<open>generate_summary\<close>; the clock reading \<open>datetime.now().isoformat()\<close> is an argument.\<close>

definition generate_summary :: "string \<Rightarrow> ReportGenerator \<Rightarrow> ScanSummary" where
  "generate_summary now g =
     \<lparr>total_files = int (length (scanned_files g)),
      total_detections = int (length (results g)),
      risk_level_counts = foldl (\<lambda>counts r. bump counts (result_risk_level r)) Map.empty (results g),
      pattern_counts = foldl (\<lambda>counts r. bump counts (pattern_name r)) Map.empty (results g),
      scan_time = now\<rparr>"

text \<open>
  \<open>_group_by_file\<close>. The dictionary \<open>grouped\<close> keeps its keys in insertion order: it is
  a list of (key, results) pairs with distinct keys. \<open>result.file_path or Path('unknown')\<close>
  is the key of a result.
\<close>

definition group_key :: "DetectionResult \<Rightarrow> path" where
  "group_key result = (case file_path result of None \<Rightarrow> Path ''unknown'' | Some p \<Rightarrow> p)"

text \<open>
  \<open>if file_path not in grouped: grouped[file_path] = []\<close>, then
  \<open>grouped[file_path].append(result)\<close>.
\<close>

fun group_append ::
  "path \<Rightarrow> DetectionResult \<Rightarrow> (path \<times> DetectionResult list) list \<Rightarrow> (path \<times> DetectionResult list) list" where
  "group_append k r [] = [(k, [r])]"
| "group_append k r ((k', rs) # grouped) =
     (if k = k' then (k', rs @ [r]) # grouped else (k', rs) # group_append k r grouped)"

text \<open>The loop \<open>for result in self.results\<close>, starting from the empty dictionary.\<close>

definition group_results :: "DetectionResult list \<Rightarrow> (path \<times> DetectionResult list) list" where
  "group_results rs = foldl (\<lambda>grouped r. group_append (group_key r) r grouped) [] rs"

definition group_by_file :: "ReportGenerator \<Rightarrow> (path \<times> DetectionResult list) list" where
  "group_by_file g = group_results (results g)"

text \<open>A sequence of \<open>add_results\<close> calls on a fresh generator.\<close>

definition add_all :: "(DetectionResult list \<times> path option) list \<Rightarrow> ReportGenerator" where
  "add_all calls = foldl (\<lambda>g (rs, fp). add_results g rs fp) ReportGenerator_init calls"

text \<open>The file paths passed by a sequence of calls, in call order.\<close>

definition paths_passed :: "(DetectionResult list \<times> path option) list \<Rightarrow> path list" where
  "paths_passed calls = concat (map (\<lambda>(rs, fp). case fp of None \<Rightarrow> [] | Some p \<Rightarrow> [p]) calls)"

section \<open>The scan loop of the command line\<close>

text \<open>
  The loop of \<open>scan_files\<close> over the files to scan: each file goes through
  \<open>detect_file\<close>; a non-empty result list is added to the report; an exception that
  leaves \<open>detect_file\<close> is caught and logged, and the loop goes on with the next file.
\<close>

definition scan_file_step ::
  "regex_engine \<Rightarrow> PIIDetector \<Rightarrow> log \<times> ReportGenerator \<Rightarrow> fs_file \<Rightarrow> log \<times> ReportGenerator" where
  "scan_file_step eng d st f =
     (case detect_file eng d f of
        (lg, Inl err) \<Rightarrow> (fst st @ [DEBUG] @ lg @ [ERROR], snd st)
      | (lg, Inr rs) \<Rightarrow>
          (if rs \<noteq> [] then (fst st @ [DEBUG] @ lg @ [INFO], add_results (snd st) rs (Some (fpath f)))
           else (fst st @ [DEBUG] @ lg, snd st)))"

definition scan_files_loop ::
  "regex_engine \<Rightarrow> PIIDetector \<Rightarrow> fs_file list \<Rightarrow> log \<times> ReportGenerator" where
  "scan_files_loop eng d files = foldl (scan_file_step eng d) ([], ReportGenerator_init) files"

section \<open>Example data\<close>

text \<open>A pattern document with two groups and three records, one with a description.\<close>

definition example_groups :: pattern_groups where
  "example_groups =
     [(''HIGH'', [[''name'' \<mapsto> ''rrn'', ''pattern'' \<mapsto> ''a'']]),
      (''LOW'', [[''name'' \<mapsto> ''mail'', ''pattern'' \<mapsto> ''b'', ''description'' \<mapsto> ''e-mail''],
                 [''name'' \<mapsto> ''ip'', ''pattern'' \<mapsto> ''c'']])]"

text \<open>A finding of the pattern \<open>rrn\<close> in the line \<open>a\<close>, with a given \<open>file_path\<close>.\<close>

definition sample_result :: "path option \<Rightarrow> DetectionResult" where
  "sample_result fp =
     \<lparr>pattern_name = ''rrn'', matched_text = ''a'', start_pos = 0, end_pos = 1,
      result_risk_level = ''HIGH'', line_number = 1, context_text = ''a'', file_path = fp\<rparr>"

section \<open>Notions used to state the results on loading and detection\<close>



text \<open>
  The invariant that \<open>__init__\<close> establishes: every pattern name is a key of
  \<open>compiled_patterns\<close>.
\<close>

definition names_compiled :: "PIIDetector \<Rightarrow> bool" where
  "names_compiled d \<longleftrightarrow> (\<forall>p \<in> set (patterns d). compiled_patterns d (name p) \<noteq> None)"

text \<open>The spans that the compiled expression of a pattern finds in a line.\<close>

definition rx_spans :: "regex_engine \<Rightarrow> PIIDetector \<Rightarrow> PIIPattern \<Rightarrow> string \<Rightarrow> (nat \<times> nat) list" where
  "rx_spans eng d p line =
     (case compiled_patterns d (name p) of None \<Rightarrow> [] | Some rx \<Rightarrow> finditer eng rx line)"

text \<open>
  The results of \<open>detect\<close> in the order of the nested loops, each paired with the
  position in \<open>self.patterns\<close> of the pattern whose iteration produced it:
  for one line from position \<open>j\<close> on, and for the lines from number \<open>n\<close> on.
\<close>

fun pattern_blocks ::
  "regex_engine \<Rightarrow> PIIDetector \<Rightarrow> int \<Rightarrow> int \<Rightarrow> string \<Rightarrow> nat \<Rightarrow> PIIPattern list \<Rightarrow>
   (nat \<times> DetectionResult) list" where
  "pattern_blocks eng d ctx n line j [] = []"
| "pattern_blocks eng d ctx n line j (p # ps) =
     map (\<lambda>m. (j, make_result p n line ctx m)) (rx_spans eng d p line)
     @ pattern_blocks eng d ctx n line (Suc j) ps"

fun line_blocks ::
  "regex_engine \<Rightarrow> PIIDetector \<Rightarrow> int \<Rightarrow> int \<Rightarrow> string list \<Rightarrow> (nat \<times> DetectionResult) list" where
  "line_blocks eng d ctx n [] = []"
| "line_blocks eng d ctx n (line # lines) =
     pattern_blocks eng d ctx n line 0 (patterns d) @ line_blocks eng d ctx (n + 1) lines"






text \<open>
  The substring of a line between two offsets \<open>0 \<le> a\<close> and \<open>b\<close>, and the line of the
  text that a result's line number names.
\<close>

definition substring :: "string \<Rightarrow> int \<Rightarrow> int \<Rightarrow> string" where
  "substring line a b = take (nat b - nat a) (drop (nat a) line)"

definition line_of :: "string \<Rightarrow> DetectionResult \<Rightarrow> string" where
  "line_of text r = splitlines text ! nat (line_number r - 1)"

text \<open>
  The detector that \<open>__init__\<close> builds from \<open>example_groups\<close>, and a text of three
  lines, the second one empty.
\<close>

definition example_detector :: PIIDetector where
  "example_detector =
     \<lparr>patterns = [\<lparr>name = ''rrn'', pattern = ''a'', risk_level = HIGH, description = []\<rparr>,
                  \<lparr>name = ''mail'', pattern = ''b'', risk_level = LOW, description = ''e-mail''\<rparr>,
                  \<lparr>name = ''ip'', pattern = ''c'', risk_level = LOW, description = []\<rparr>],
      compiled_patterns = [''rrn'' \<mapsto> ''a'', ''mail'' \<mapsto> ''b'', ''ip'' \<mapsto> ''c'']\<rparr>"


section \<open>Example files\<close>

text \<open>
  An HTML file, which \<open>magic\<close> reports as \<open>text/html\<close>; a PDF of three pages, the
  second without extractable text; a plain-text file that is not valid UTF-8.
\<close>

definition html_file :: fs_file where
  "html_file =
     \<lparr>fpath = Path ''page.html'', suffix = ''.html'',
      magic_from_file = Inr ''text/html'',
      read_utf8 = Inr ''<html>a</html>'',
      pdfplumber_pages = Inl (OtherException ''not a PDF''),
      docx_document = Inl (OtherException ''not a DOCX'')\<rparr>"

definition pdf_file :: fs_file where
  "pdf_file =
     \<lparr>fpath = Path ''three.pdf'', suffix = ''.pdf'',
      magic_from_file = Inr ''application/pdf'',
      read_utf8 = Inl UnicodeDecodeError,
      pdfplumber_pages = Inr [Some ''a'', None, Some ''b''],
      docx_document = Inl (OtherException ''not a DOCX'')\<rparr>"

definition broken_text_file :: fs_file where
  "broken_text_file =
     \<lparr>fpath = Path ''latin1.txt'', suffix = ''.txt'',
      magic_from_file = Inr ''text/plain'',
      read_utf8 = Inl UnicodeDecodeError,
      pdfplumber_pages = Inl (OtherException ''not a PDF''),
      docx_document = Inl (OtherException ''not a DOCX'')\<rparr>"

section \<open>Pattern loading keeps the declared records in order\<close>







section \<open>The report: scanned files and groups\<close>

lemma add_all_snoc: "add_all (calls @ [(rs, fp)]) = add_results (add_all calls) rs fp"
  by (simp add: add_all_def)

lemma scanned_files_add_all: "scanned_files (add_all calls) = paths_passed calls"
proof (induction calls rule: rev_induct)
  case Nil
  show ?case by (simp add: add_all_def paths_passed_def ReportGenerator_init_def)
next
  case (snoc c calls)
  obtain rs fp where c: "c = (rs, fp)" by (cases c)
  show ?case
    using snoc.IH
    by (cases fp) (simp_all add: c add_all_snoc add_results_def paths_passed_def Let_def)
qed

lemma results_add_all: "results (add_all calls) = concat (map fst calls)"
proof (induction calls rule: rev_induct)
  case Nil
  show ?case by (simp add: add_all_def ReportGenerator_init_def)
next
  case (snoc c calls)
  obtain rs fp where c: "c = (rs, fp)" by (cases c)
  show ?case
    using snoc.IH
    by (cases fp) (simp_all add: c add_all_snoc add_results_def Let_def)
qed

text \<open>
  Claim C1, as the code has it. After any sequence of \<open>add_results\<close> calls on a fresh
  generator, \<open>total_files\<close> is the number of calls that passed a file path, a path
  passed twice counted twice, whatever the result lists were (an empty list counts);
  it is the number of distinct paths when no path was passed twice.
\<close>

theorem total_files_counts_calls:
  "total_files (generate_summary now (add_all calls)) = int (length (paths_passed calls))
   \<and> (distinct (paths_passed calls) \<longrightarrow>
        total_files (generate_summary now (add_all calls)) = int (card (set (paths_passed calls))))"
  by (simp add: generate_summary_def scanned_files_add_all distinct_card)

theorem total_files_counts_calls_witness:
  "distinct (paths_passed [([], Some (Path ''a.txt'')), ([sample_result None], None), ([], Some (Path ''b.txt''))])
   \<and> total_files (generate_summary ''t''
        (add_all [([], Some (Path ''a.txt'')), ([sample_result None], None), ([], Some (Path ''b.txt''))])) = 2"
  using total_files_counts_calls [of "''t''"
      "[([], Some (Path ''a.txt'')), ([sample_result None], None), ([], Some (Path ''b.txt''))]"]
  by (simp add: paths_passed_def)

text \<open>
  The claim as stated fails: two calls with the same path give \<open>total_files = 2\<close>, and
  one distinct path was passed.
\<close>

theorem total_files_repeated_path:
  "total_files (generate_summary ''t''
      (add_all [([], Some (Path ''a.txt'')), ([], Some (Path ''a.txt''))])) = 2
   \<and> int (card (set (paths_passed [([], Some (Path ''a.txt'')), ([], Some (Path ''a.txt''))]))) = 1"
  by (simp add: generate_summary_def add_all_def add_results_def ReportGenerator_init_def
      paths_passed_def Let_def)

lemma map_of_group_append:
  "map_of (group_append k r g) k' =
     (if k' = k then Some ((case map_of g k of None \<Rightarrow> [] | Some rs \<Rightarrow> rs) @ [r])
      else map_of g k')"
  by (induction k r g rule: group_append.induct) auto

lemma keys_group_append:
  "map fst (group_append k r g) = (if k \<in> set (map fst g) then map fst g else map fst g @ [k])"
  by (induction k r g rule: group_append.induct) auto

lemma sizes_group_append:
  "sum_list (map (\<lambda>kv. length (snd kv)) (group_append k r g)) =
   Suc (sum_list (map (\<lambda>kv. length (snd kv)) g))"
  by (induction k r g rule: group_append.induct) auto

lemma group_results_snoc:
  "group_results (rs @ [r]) = group_append (group_key r) r (group_results rs)"
  by (simp add: group_results_def)

lemma group_results_Nil: "group_results [] = []"
  by (simp add: group_results_def)

lemma distinct_group_results: "distinct (map fst (group_results rs))"
  by (induction rs rule: rev_induct)
    (simp_all add: group_results_Nil group_results_snoc keys_group_append)

lemma map_of_group_results:
  "map_of (group_results rs) k =
     (if k \<in> group_key ` set rs then Some (filter (\<lambda>r. group_key r = k) rs) else None)"
proof (induction rs arbitrary: k rule: rev_induct)
  case Nil
  show ?case by (simp add: group_results_Nil)
next
  case (snoc r rs)
  show ?case
  proof (cases "k = group_key r")
    case True
    show ?thesis
      using snoc.IH [of "group_key r"]
      by (auto simp: True group_results_snoc map_of_group_append empty_filter_conv image_iff)
  next
    case False
    then show ?thesis
      using snoc.IH [of k]
      by (auto simp: group_results_snoc map_of_group_append)
  qed
qed

lemma sizes_group_results:
  "sum_list (map (\<lambda>kv. length (snd kv)) (group_results rs)) = length rs"
  by (induction rs rule: rev_induct)
    (simp_all add: group_results_Nil group_results_snoc sizes_group_append)

text \<open>
  Claim C9, as the code has it. The keys of \<open>_group_by_file\<close> are distinct; the group
  of a key holds, in order, exactly the results with that key, and the groups together
  hold as many entries as there are results, so each result is in exactly one group.
  The key of a result with a \<open>file_path\<close> is that path, and the key of a result
  without one is \<open>Path('unknown')\<close>, which is the key of a file of that name as well.
\<close>

theorem group_by_file_partition:
  "distinct (map fst (group_by_file g))
   \<and> (\<forall>k. map_of (group_by_file g) k =
          (if k \<in> group_key ` set (results g)
           then Some (filter (\<lambda>r. group_key r = k) (results g)) else None))
   \<and> sum_list (map (\<lambda>kv. length (snd kv)) (group_by_file g)) = length (results g)
   \<and> (\<forall>r p. file_path r = Some p \<longrightarrow> group_key r = p)
   \<and> (\<forall>r. file_path r = None \<longrightarrow> group_key r = Path ''unknown'')"
  using distinct_group_results [of "results g"] map_of_group_results [of "results g"]
    sizes_group_results [of "results g"]
  by (simp add: group_by_file_def group_key_def)

theorem group_by_file_partition_witness:
  "map_of (group_by_file \<lparr>results = [sample_result (Some (Path ''a.txt'')), sample_result None,
                                     sample_result (Some (Path ''a.txt''))],
                         scanned_files = [Path ''a.txt'']\<rparr>) (Path ''a.txt'')
     = Some [sample_result (Some (Path ''a.txt'')), sample_result (Some (Path ''a.txt''))]
   \<and> map_of (group_by_file \<lparr>results = [sample_result (Some (Path ''a.txt'')), sample_result None,
                                     sample_result (Some (Path ''a.txt''))],
                         scanned_files = [Path ''a.txt'']\<rparr>) (Path ''unknown'')
     = Some [sample_result None]"
  using group_by_file_partition [of "\<lparr>results = [sample_result (Some (Path ''a.txt'')), sample_result None,
                                     sample_result (Some (Path ''a.txt''))],
                         scanned_files = [Path ''a.txt'']\<rparr>"]
  by (simp add: group_key_def sample_result_def)

text \<open>
  The claim as stated fails: the results of a file whose path is \<open>unknown\<close> and the
  results without a source share one group.
\<close>

theorem unknown_key_collides:
  "group_by_file \<lparr>results = [sample_result (Some (Path ''unknown'')), sample_result None],
                  scanned_files = [Path ''unknown'']\<rparr>
   = [(Path ''unknown'', [sample_result (Some (Path ''unknown'')), sample_result None])]"
  by (simp add: group_by_file_def group_results_def group_key_def sample_result_def)

section \<open>An expression that does not compile aborts the construction of the detector\<close>









section \<open>The loops of detection, unfolded\<close>

lemma compile_patterns_dom:
  "compile_patterns eng ps m = Inr m' \<Longrightarrow> dom m' = dom m \<union> name ` set ps"
  by (induction ps arbitrary: m) (auto split: if_splits)

lemma init_names_compiled:
  assumes "PIIDetector_init eng f = Inr d"
  shows "names_compiled d"
proof -
  from assms obtain ps m where "compile_patterns eng ps Map.empty = Inr m"
    and d: "d = \<lparr>patterns = ps, compiled_patterns = m\<rparr>"
    by (auto simp: PIIDetector_init_def split: sum.splits)
  from compile_patterns_dom [OF this(1)] show ?thesis
    by (auto simp: names_compiled_def d)
qed

lemma detect_patterns_blocks:
  "\<forall>p \<in> set ps. compiled_patterns d (name p) \<noteq> None \<Longrightarrow>
   detect_patterns eng d n line ctx ps acc =
     Inr (acc @ map snd (pattern_blocks eng d ctx n line j ps))"
proof (induction ps arbitrary: acc j)
  case Nil
  show ?case by simp
next
  case (Cons p ps)
  from Cons.prems obtain rx where rx: "compiled_patterns d (name p) = Some rx" by auto
  from Cons.prems have rest: "\<forall>p \<in> set ps. compiled_patterns d (name p) \<noteq> None" by simp
  show ?case
    using Cons.IH [OF rest, of "acc @ map (make_result p n line ctx) (finditer eng rx line)" "Suc j"]
    by (simp add: rx rx_spans_def comp_def)
qed

lemma detect_lines_blocks:
  "names_compiled d \<Longrightarrow>
   detect_lines eng d ctx n lines acc = Inr (acc @ map snd (line_blocks eng d ctx n lines))"
proof (induction lines arbitrary: acc n)
  case Nil
  show ?case by simp
next
  case (Cons line lines)
  from Cons.prems have "\<forall>p \<in> set (patterns d). compiled_patterns d (name p) \<noteq> None"
    by (simp add: names_compiled_def)
  from detect_patterns_blocks [OF this, of eng n line ctx acc 0] Cons.IH [OF Cons.prems]
  show ?case by simp
qed

lemma detect_blocks:
  "names_compiled d \<Longrightarrow>
   detect eng d text ctx = Inr (map snd (line_blocks eng d ctx 1 (splitlines text)))"
  by (simp add: detect_def detect_lines_blocks)

lemma pattern_blocks_member:
  "(j', r) \<in> set (pattern_blocks eng d ctx n line j ps) \<Longrightarrow>
   j \<le> j' \<and> j' < j + length ps \<and>
   (\<exists>m \<in> set (rx_spans eng d (ps ! (j' - j)) line). r = make_result (ps ! (j' - j)) n line ctx m)"
proof (induction ps arbitrary: j)
  case Nil
  then show ?case by simp
next
  case (Cons p ps)
  from Cons.prems consider
    (here) "j' = j" "\<exists>m \<in> set (rx_spans eng d p line). r = make_result p n line ctx m"
    | (later) "(j', r) \<in> set (pattern_blocks eng d ctx n line (Suc j) ps)"
    by auto
  then show ?case
  proof cases
    case here
    then show ?thesis by simp
  next
    case later
    from Cons.IH [OF later] show ?thesis
      by (auto simp: Suc_diff_le nth_Cons')
  qed
qed

lemma line_blocks_member:
  "(j, r) \<in> set (line_blocks eng d ctx n lines) \<Longrightarrow>
   \<exists>i < length lines. j < length (patterns d) \<and>
     (\<exists>m \<in> set (rx_spans eng d (patterns d ! j) (lines ! i)).
        r = make_result (patterns d ! j) (n + int i) (lines ! i) ctx m)"
proof (induction lines arbitrary: n)
  case Nil
  then show ?case by simp
next
  case (Cons line lines)
  from Cons.prems consider
    (here) "(j, r) \<in> set (pattern_blocks eng d ctx n line 0 (patterns d))"
    | (later) "(j, r) \<in> set (line_blocks eng d ctx (n + 1) lines)"
    by auto
  then show ?case
  proof cases
    case here
    from pattern_blocks_member [OF here] show ?thesis by (intro exI [of _ 0]) auto
  next
    case later
    from Cons.IH [OF later] obtain i where "i < length lines" "j < length (patterns d)"
      "\<exists>m \<in> set (rx_spans eng d (patterns d ! j) (lines ! i)).
        r = make_result (patterns d ! j) (n + 1 + int i) (lines ! i) ctx m"
      by blast
    then show ?thesis by (intro exI [of _ "Suc i"]) (auto simp: algebra_simps)
  qed
qed

lemma line_number_make_result [simp]: "line_number (make_result p n line ctx m) = n"
  by (simp add: make_result_def Let_def)

lemma start_pos_make_result [simp]: "start_pos (make_result p n line ctx m) = int (fst m)"
  by (simp add: make_result_def Let_def)

lemma end_pos_make_result [simp]: "end_pos (make_result p n line ctx m) = int (snd m)"
  by (simp add: make_result_def Let_def)

lemma pattern_name_make_result [simp]: "pattern_name (make_result p n line ctx m) = name p"
  by (simp add: make_result_def Let_def)

lemma detect_results_from:
  assumes "names_compiled d" "detect eng d text ctx = Inr rs" "r \<in> set rs"
  shows "\<exists>i < length (splitlines text). \<exists>p \<in> set (patterns d).
           \<exists>m \<in> set (rx_spans eng d p (splitlines text ! i)).
             r = make_result p (1 + int i) (splitlines text ! i) ctx m"
proof -
  from assms(2) detect_blocks [OF assms(1), of eng "text" ctx]
  have "rs = map snd (line_blocks eng d ctx 1 (splitlines text))" by simp
  with assms(3) obtain j where "(j, r) \<in> set (line_blocks eng d ctx 1 (splitlines text))"
    by auto
  from line_blocks_member [OF this] show ?thesis by (metis nth_mem)
qed

section \<open>The example detector at work\<close>

lemma example_detector_init:
  "PIIDetector_init sample_engine (Document (Some example_groups)) = Inr example_detector"
  by (simp add: PIIDetector_init_def load_patterns_def example_groups_def make_pattern_def
      RiskLevel_getitem_def sample_engine_def example_detector_def)



lemma sample_engine_in_line: "finditer_in_line sample_engine"
  by (auto simp: finditer_in_line_def sample_engine_def split: list.splits)


lemma detect_window_example:
  "detect sample_engine example_detector ''ccacc'' 1 =
     Inr [\<lparr>pattern_name = ''rrn'', matched_text = ''a'', start_pos = 2, end_pos = 3,
           result_risk_level = ''HIGH'', line_number = 1, context_text = ''cac'', file_path = None\<rparr>,
          \<lparr>pattern_name = ''ip'', matched_text = ''c'', start_pos = 0, end_pos = 1,
           result_risk_level = ''LOW'', line_number = 1, context_text = ''cc'', file_path = None\<rparr>,
          \<lparr>pattern_name = ''ip'', matched_text = ''c'', start_pos = 1, end_pos = 2,
           result_risk_level = ''LOW'', line_number = 1, context_text = ''cca'', file_path = None\<rparr>,
          \<lparr>pattern_name = ''ip'', matched_text = ''c'', start_pos = 3, end_pos = 4,
           result_risk_level = ''LOW'', line_number = 1, context_text = ''acc'', file_path = None\<rparr>,
          \<lparr>pattern_name = ''ip'', matched_text = ''c'', start_pos = 4, end_pos = 5,
           result_risk_level = ''LOW'', line_number = 1, context_text = ''cc'', file_path = None\<rparr>]"
  by (simp add: detect_def splitlines_def is_linebreak_def example_detector_def sample_engine_def
      make_result_def py_slice_def slice_index_def Let_def)

lemma detect_negative_window:
  "detect sample_engine example_detector ''a'' (- 1) =
     Inr [\<lparr>pattern_name = ''rrn'', matched_text = ''a'', start_pos = 0, end_pos = 1,
           result_risk_level = ''HIGH'', line_number = 1, context_text = [], file_path = None\<rparr>]"
  by (simp add: detect_def splitlines_def is_linebreak_def example_detector_def sample_engine_def
      make_result_def py_slice_def slice_index_def Let_def)

section \<open>The order of the results\<close>










section \<open>The context window\<close>

lemma py_slice_in_range:
  "0 \<le> a \<Longrightarrow> 0 \<le> b \<Longrightarrow> b \<le> int (length xs) \<Longrightarrow>
   py_slice xs a b = take (nat b - nat a) (drop (nat a) xs)"
  by (cases "a \<le> int (length xs)") (auto simp: py_slice_def slice_index_def Let_def min_def)

text \<open>
  Claim C8. For a loaded pattern set and \<open>context_chars \<ge> 0\<close>, \<open>detect\<close> returns,
  and the context of every result is the substring of its line from
  \<open>max(0, start - context_chars)\<close> to \<open>min(len(line), end + context_chars)\<close>.
\<close>

theorem context_is_window:
  assumes "PIIDetector_init eng f = Inr d" and "0 \<le> context_chars"
  shows "\<exists>rs. detect eng d text context_chars = Inr rs
           \<and> (\<forall>r \<in> set rs.
                 1 \<le> line_number r \<and> line_number r \<le> int (length (splitlines text))
                 \<and> context_text r =
                     substring (line_of text r)
                       (max 0 (start_pos r - context_chars))
                       (min (int (length (line_of text r))) (end_pos r + context_chars)))"
proof -
  have nc: "names_compiled d" by (rule init_names_compiled [OF assms(1)])
  let ?rs = "map snd (line_blocks eng d context_chars 1 (splitlines text))"
  have det: "detect eng d text context_chars = Inr ?rs" by (rule detect_blocks [OF nc])
  have "1 \<le> line_number r \<and> line_number r \<le> int (length (splitlines text))
          \<and> context_text r =
              substring (line_of text r)
                (max 0 (start_pos r - context_chars))
                (min (int (length (line_of text r))) (end_pos r + context_chars))"
    if "r \<in> set ?rs" for r
  proof -
    from detect_results_from [OF nc det that] obtain i p m
      where i: "i < length (splitlines text)"
        and r: "r = make_result p (1 + int i) (splitlines text ! i) context_chars m"
      by blast
    have line: "line_of text r = splitlines text ! i" by (simp add: line_of_def r)
    have "context_text r = py_slice (splitlines text ! i)
            (max 0 (start_pos r - context_chars))
            (min (int (length (splitlines text ! i))) (end_pos r + context_chars))"
      by (simp add: r make_result_def Let_def)
    also have "\<dots> = substring (splitlines text ! i)
            (max 0 (start_pos r - context_chars))
            (min (int (length (splitlines text ! i))) (end_pos r + context_chars))"
      unfolding substring_def using assms(2)
      by (intro py_slice_in_range) (simp_all add: r)
    finally have "context_text r =
              substring (line_of text r)
                (max 0 (start_pos r - context_chars))
                (min (int (length (line_of text r))) (end_pos r + context_chars))"
      by (simp only: line)
    then show ?thesis using i by (simp add: r)
  qed
  with det show ?thesis by blast
qed

theorem context_is_window_witness:
  "PIIDetector_init sample_engine (Document (Some example_groups)) = Inr example_detector
   \<and> (0::int) \<le> 1
   \<and> (\<exists>rs. detect sample_engine example_detector ''ccacc'' 1 = Inr rs
          \<and> map context_text rs = [''cac'', ''cc'', ''cca'', ''acc'', ''cc'']
          \<and> (\<forall>r \<in> set rs.
                 context_text r =
                   substring (line_of ''ccacc'' r) (max 0 (start_pos r - 1))
                     (min (int (length (line_of ''ccacc'' r))) (end_pos r + 1))))"
proof -
  from context_is_window [OF example_detector_init, of 1 "''ccacc''"]
  obtain rs where rs: "detect sample_engine example_detector ''ccacc'' 1 = Inr rs"
    and w: "\<forall>r \<in> set rs.
                 context_text r =
                   substring (line_of ''ccacc'' r) (max 0 (start_pos r - 1))
                     (min (int (length (line_of ''ccacc'' r))) (end_pos r + 1))"
    by auto
  from rs have k: "map context_text rs = [''cac'', ''cc'', ''cca'', ''acc'', ''cc'']"
    by (auto simp: detect_window_example)
  show ?thesis
    apply (intro conjI exI [of _ rs])
       apply (rule example_detector_init)
      apply simp
     apply (rule rs)
    apply (rule k)
    apply (rule w)
    done
qed

section \<open>Offsets, matched text and context of a result\<close>

lemma take_drop_split3:
  "a \<le> s \<Longrightarrow> s \<le> e \<Longrightarrow> e \<le> b \<Longrightarrow>
   take (b - a) (drop a xs) =
     take (s - a) (drop a xs) @ take (e - s) (drop s xs) @ take (b - e) (drop e xs)"
proof -
  assume h: "a \<le> s" "s \<le> e" "e \<le> b"
  then have "b - a = (s - a) + ((e - s) + (b - e))" by simp
  then have "take (b - a) (drop a xs) = take ((s - a) + ((e - s) + (b - e))) (drop a xs)" by simp
  also have "\<dots> = take (s - a) (drop a xs) @ take (e - s) (drop s xs) @ take (b - e) (drop e xs)"
    using h by (simp only: take_add drop_drop) simp
  finally show ?thesis .
qed

lemma rx_spans_in_line:
  "finditer_in_line eng \<Longrightarrow> m \<in> set (rx_spans eng d p line) \<Longrightarrow> fst m \<le> snd m \<and> snd m \<le> length line"
  by (fastforce simp: rx_spans_def finditer_in_line_def split: option.splits)

lemma make_result_well_formed:
  assumes "fst m \<le> snd m" "snd m \<le> length line"
  shows "matched_text (make_result p n line ctx m) = substring line (int (fst m)) (int (snd m))"
    and "0 \<le> ctx \<Longrightarrow> \<exists>pre post.
           context_text (make_result p n line ctx m) = pre @ matched_text (make_result p n line ctx m) @ post"
proof -
  let ?s = "fst m" and ?e = "snd m"
  show mt: "matched_text (make_result p n line ctx m) = substring line (int ?s) (int ?e)"
    using assms by (simp add: make_result_def Let_def py_slice_in_range substring_def)
  assume ctx: "0 \<le> ctx"
  let ?a = "nat (max 0 (int ?s - ctx))" and ?b = "nat (min (int (length line)) (int ?e + ctx))"
  have ord: "?a \<le> ?s" "?s \<le> ?e" "?e \<le> ?b" using assms ctx by auto
  have "context_text (make_result p n line ctx m) = take (?b - ?a) (drop ?a line)"
    using assms ctx by (simp add: make_result_def Let_def py_slice_in_range)
  also have "\<dots> = take (?s - ?a) (drop ?a line) @ take (?e - ?s) (drop ?s line)
                   @ take (?b - ?e) (drop ?e line)"
    by (rule take_drop_split3 [OF ord])
  finally show "\<exists>pre post.
           context_text (make_result p n line ctx m) = pre @ matched_text (make_result p n line ctx m) @ post"
    unfolding mt substring_def by auto
qed

text \<open>
  Claim C10, as the code has it. When the spans of \<open>finditer\<close> lie inside the line,
  every result of \<open>detect\<close> on a loaded pattern set has
  \<open>0 \<le> start_pos \<le> end_pos \<le> len(line)\<close> for the line its line number names, its
  matched text is the slice of that line between the two offsets, and, when
  \<open>context_chars \<ge> 0\<close>, the matched text is a contiguous part of the context.
\<close>

theorem findings_well_formed:
  assumes "finditer_in_line eng" and "PIIDetector_init eng f = Inr d"
  shows "\<exists>rs. detect eng d text context_chars = Inr rs
           \<and> (\<forall>r \<in> set rs.
                 1 \<le> line_number r \<and> line_number r \<le> int (length (splitlines text))
                 \<and> 0 \<le> start_pos r \<and> start_pos r \<le> end_pos r
                 \<and> end_pos r \<le> int (length (line_of text r))
                 \<and> matched_text r = substring (line_of text r) (start_pos r) (end_pos r)
                 \<and> (0 \<le> context_chars \<longrightarrow>
                      (\<exists>pre post. context_text r = pre @ matched_text r @ post)))"
proof -
  have nc: "names_compiled d" by (rule init_names_compiled [OF assms(2)])
  let ?rs = "map snd (line_blocks eng d context_chars 1 (splitlines text))"
  have det: "detect eng d text context_chars = Inr ?rs" by (rule detect_blocks [OF nc])
  have "1 \<le> line_number r \<and> line_number r \<le> int (length (splitlines text))
                 \<and> 0 \<le> start_pos r \<and> start_pos r \<le> end_pos r
                 \<and> end_pos r \<le> int (length (line_of text r))
                 \<and> matched_text r = substring (line_of text r) (start_pos r) (end_pos r)
                 \<and> (0 \<le> context_chars \<longrightarrow>
                      (\<exists>pre post. context_text r = pre @ matched_text r @ post))"
    if "r \<in> set ?rs" for r
  proof -
    from detect_results_from [OF nc det that] obtain i p m
      where i: "i < length (splitlines text)"
        and m: "m \<in> set (rx_spans eng d p (splitlines text ! i))"
        and r: "r = make_result p (1 + int i) (splitlines text ! i) context_chars m"
      by blast
    from rx_spans_in_line [OF assms(1) m]
    have span: "fst m \<le> snd m" "snd m \<le> length (splitlines text ! i)" by auto
    have line: "line_of text r = splitlines text ! i" by (simp add: line_of_def r)
    have mt: "matched_text r = substring (splitlines text ! i) (start_pos r) (end_pos r)"
      unfolding r using make_result_well_formed(1) [OF span] by simp
    have cx: "\<exists>pre post. context_text r = pre @ matched_text r @ post" if "0 \<le> context_chars"
      unfolding r by (rule make_result_well_formed(2) [OF span that])
    show ?thesis
      unfolding line using i span mt cx by (simp add: r)
  qed
  with det show ?thesis by blast
qed

theorem findings_well_formed_witness:
  "finditer_in_line sample_engine
   \<and> PIIDetector_init sample_engine (Document (Some example_groups)) = Inr example_detector
   \<and> (\<exists>rs. detect sample_engine example_detector ''ccacc'' 1 = Inr rs
          \<and> map matched_text rs = [''a'', ''c'', ''c'', ''c'', ''c'']
          \<and> (\<forall>r \<in> set rs.
                 0 \<le> start_pos r \<and> start_pos r \<le> end_pos r
                 \<and> end_pos r \<le> int (length (line_of ''ccacc'' r))
                 \<and> matched_text r = substring (line_of ''ccacc'' r) (start_pos r) (end_pos r)
                 \<and> (\<exists>pre post. context_text r = pre @ matched_text r @ post)))"
proof -
  from findings_well_formed [OF sample_engine_in_line example_detector_init, of "''ccacc''" 1]
  obtain rs where rs: "detect sample_engine example_detector ''ccacc'' 1 = Inr rs"
    and w: "\<forall>r \<in> set rs.
                 0 \<le> start_pos r \<and> start_pos r \<le> end_pos r
                 \<and> end_pos r \<le> int (length (line_of ''ccacc'' r))
                 \<and> matched_text r = substring (line_of ''ccacc'' r) (start_pos r) (end_pos r)
                 \<and> (\<exists>pre post. context_text r = pre @ matched_text r @ post)"
    by auto
  from rs have k: "map matched_text rs = [''a'', ''c'', ''c'', ''c'', ''c'']"
    by (auto simp: detect_window_example)
  show ?thesis
    apply (intro conjI exI [of _ rs])
       apply (rule sample_engine_in_line)
      apply (rule example_detector_init)
     apply (rule rs)
    apply (rule k)
    apply (rule w)
    done
qed

text \<open>
  The claim as stated fails for a negative \<open>context_chars\<close>: with \<open>-1\<close> the match
  \<open>a\<close> at offsets 0 to 1 gets the empty context.
\<close>

theorem negative_window_loses_match:
  "PIIDetector_init sample_engine (Document (Some example_groups)) = Inr example_detector
   \<and> detect sample_engine example_detector ''a'' (- 1) =
       Inr [\<lparr>pattern_name = ''rrn'', matched_text = ''a'', start_pos = 0, end_pos = 1,
             result_risk_level = ''HIGH'', line_number = 1, context_text = [], file_path = None\<rparr>]"
  using example_detector_init detect_negative_window by simp

section \<open>Unsupported formats\<close>

lemma unknown_type_branches:
  assumes "snd (file_type_of f mime) = UNKNOWN"
  shows "\<not> contains ''pdf'' (lower mime)"
    and "\<not> (contains ''officedocument.wordprocessingml.document'' (lower mime)
            \<or> lower (suffix f) = ''.docx'')"
  using assms by (auto simp: file_type_of_def Let_def split: if_splits)

lemma detect_file_text_else:
  assumes "snd (file_type_of f mime) = UNKNOWN"
  shows "detect_file_text f mime = ([DEBUG], read_utf8 f)"
  using unknown_type_branches [OF assms]
  by (cases "read_utf8 f") (simp_all add: detect_file_text_def)

text \<open>
  Claim C3, as the code has it. For a file whose MIME type and suffix give the type
  \<open>UNKNOWN\<close>, \<open>FileHandler.extract_text\<close> returns \<open>None\<close> and logs an error; it
  returns no text. \<open>PIIDetector.detect_file\<close> has no case for such a file: it reads
  the file as UTF-8 text, and when that succeeds it scans the text.
\<close>

theorem unknown_type_extraction:
  assumes "magic_from_file f = Inr mime" and "snd (file_type_of f mime) = UNKNOWN"
  shows "snd (extract_text f) = Inr None
       \<and> ERROR \<in> set (fst (extract_text f))
       \<and> detect_file_text f mime = ([DEBUG], read_utf8 f)
       \<and> (\<forall>text rs. read_utf8 f = Inr text \<and> detect eng d text 50 = Inr rs \<longrightarrow>
             snd (detect_file eng d f) = Inr (map (\<lambda>r. r\<lparr>file_path := Some (fpath f)\<rparr>) rs))"
  using assms detect_file_text_else [OF assms(2)]
  by (simp add: extract_text_def get_file_type_def extract_text_body_def detect_file_def)

theorem unknown_type_extraction_witness:
  "magic_from_file html_file = Inr ''text/html''
   \<and> snd (file_type_of html_file ''text/html'') = UNKNOWN
   \<and> snd (extract_text html_file) = Inr None
   \<and> detect_file_text html_file ''text/html'' = ([DEBUG], Inr ''<html>a</html>'')"
proof -
  have m: "magic_from_file html_file = Inr ''text/html''"
    by (simp add: html_file_def)
  have u: "snd (file_type_of html_file ''text/html'') = UNKNOWN"
    by (simp add: file_type_of_def html_file_def lower_def lower_char_def startswith_def Let_def)
  from unknown_type_extraction [OF m u] m u show ?thesis
    by (simp add: html_file_def)
qed

text \<open>
  The claim as stated fails for \<open>detect_file\<close>: the HTML file is outside the three
  formats, and it is read as plain text and yields a finding.
\<close>

theorem html_scanned_as_text:
  "snd (file_type_of html_file ''text/html'') = UNKNOWN
   \<and> detect_file sample_engine example_detector html_file =
       ([DEBUG, DEBUG],
        Inr [\<lparr>pattern_name = ''rrn'', matched_text = ''a'', start_pos = 6, end_pos = 7,
              result_risk_level = ''HIGH'', line_number = 1, context_text = ''<html>a</html>'',
              file_path = Some (Path ''page.html'')\<rparr>])"
proof -
  have u: "snd (file_type_of html_file ''text/html'') = UNKNOWN"
    by (simp add: file_type_of_def html_file_def lower_def lower_char_def startswith_def Let_def)
  have t: "detect_file_text html_file ''text/html'' = ([DEBUG], Inr ''<html>a</html>'')"
    using detect_file_text_else [OF u] by (simp add: html_file_def)
  have m: "magic_from_file html_file = Inr ''text/html''"
    by (simp add: html_file_def)
  have fp: "fpath html_file = Path ''page.html''"
    by (simp add: html_file_def)
  have d: "detect sample_engine example_detector ''<html>a</html>'' 50 =
      Inr [\<lparr>pattern_name = ''rrn'', matched_text = ''a'', start_pos = 6, end_pos = 7,
              result_risk_level = ''HIGH'', line_number = 1, context_text = ''<html>a</html>'',
              file_path = None\<rparr>]"
    by (simp add: detect_def splitlines_def is_linebreak_def example_detector_def sample_engine_def
      make_result_def py_slice_def slice_index_def Let_def)
  have "detect_file sample_engine example_detector html_file =
       ([DEBUG, DEBUG],
        Inr [\<lparr>pattern_name = ''rrn'', matched_text = ''a'', start_pos = 6, end_pos = 7,
              result_risk_level = ''HIGH'', line_number = 1, context_text = ''<html>a</html>'',
              file_path = Some (Path ''page.html'')\<rparr>])"
    by (simp add: detect_file_def m fp t d)
  with u show ?thesis by simp
qed

section \<open>PDF pages\<close>

lemma extract_text_pdf:
  assumes "magic_from_file f = Inr mime" "snd (file_type_of f mime) = PDF"
    "pdfplumber_pages f = Inr pages"
  shows "snd (extract_text f) = Inr (Some (str_join newline (map or_empty pages)))"
  using assms
  by (simp add: extract_text_def get_file_type_def extract_text_body_def extract_from_pdf_def)

lemma detect_file_pdf_text_concat: "detect_file_pdf_text pages = concat (map or_empty pages)"
proof -
  have "foldl (\<lambda>text page. text @ or_empty page) acc pages = acc @ concat (map or_empty pages)"
    for acc
    by (induction pages arbitrary: acc) simp_all
  then show ?thesis by (simp add: detect_file_pdf_text_def)
qed

text \<open>
  Claim C5, on the three-page PDF. \<open>FileHandler.extract_text\<close> joins the page texts
  with newlines, the page without text giving the empty string. \<open>detect_file\<close> appends
  the page texts with nothing between them.
\<close>

theorem pdf_pages_run_together:
  "snd (extract_text pdf_file) = Inr (Some (''a'' @ newline @ newline @ ''b''))
   \<and> detect_file_text pdf_file ''application/pdf'' = ([DEBUG], Inr ''ab'')"
proof -
  have p: "contains ''pdf'' (lower ''application/pdf'')"
    by (simp add: lower_def lower_char_def startswith_def)
  have np: "\<not> contains ''text/plain'' (lower ''application/pdf'')"
    by (simp add: lower_def lower_char_def startswith_def)
  have "snd (file_type_of pdf_file ''application/pdf'') = PDF"
    using p np by (simp add: file_type_of_def Let_def)
  from extract_text_pdf [OF _ this, of "[Some ''a'', None, Some ''b'']"]
  have "snd (extract_text pdf_file) = Inr (Some (''a'' @ newline @ newline @ ''b''))"
    by (simp add: pdf_file_def or_empty_def)
  moreover have "detect_file_text pdf_file ''application/pdf'' = ([DEBUG], Inr ''ab'')"
    using p by (simp add: detect_file_text_def pdf_file_def detect_file_pdf_text_def or_empty_def)
  ultimately show ?thesis by simp
qed

section \<open>Extraction failures\<close>

lemma scan_report_only:
  "snd (foldl (scan_file_step eng d) st fs) =
   foldl (\<lambda>g f. snd (scan_file_step eng d ([], g) f)) (snd st) fs"
proof (induction fs arbitrary: st)
  case Nil
  show ?case by simp
next
  case (Cons f fs)
  have "snd (scan_file_step eng d st f) = snd (scan_file_step eng d ([], snd st) f)"
    by (simp add: scan_file_step_def split: prod.splits sum.splits)
  with Cons.IH [of "scan_file_step eng d st f"] show ?case by simp
qed

lemma scan_skips:
  assumes "snd (detect_file eng d f) = Inr []"
  shows "snd (scan_files_loop eng d (fs1 @ f # fs2)) = snd (scan_files_loop eng d (fs1 @ fs2))"
proof -
  from assms obtain lg where "detect_file eng d f = (lg, Inr [])"
    by (cases "detect_file eng d f") auto
  then have skip: "snd (scan_file_step eng d ([], g) f) = g" for g
    by (simp add: scan_file_step_def)
  have "snd (scan_files_loop eng d xs) =
      foldl (\<lambda>g f. snd (scan_file_step eng d ([], g) f)) ReportGenerator_init xs" for xs
    unfolding scan_files_loop_def by (subst scan_report_only) simp
  then show ?thesis by (simp add: skip)
qed

text \<open>
  Claim C7. When the MIME type of a file can be read and the extraction of its text
  raises (a decoding or parsing failure), \<open>detect_file\<close> returns the empty list and logs
  an error, no exception leaves it, and the scan loop produces the report it produces
  without that file: the files after it are scanned. \<open>FileHandler.extract_text\<close>
  likewise returns \<open>None\<close> and logs an error when the extraction it chose raises.
\<close>

theorem extraction_failure_is_a_value:
  assumes "magic_from_file f = Inr mime" and "snd (detect_file_text f mime) = Inl err"
  shows "snd (detect_file eng d f) = Inr []
       \<and> ERROR \<in> set (fst (detect_file eng d f))
       \<and> snd (scan_files_loop eng d (fs1 @ f # fs2)) = snd (scan_files_loop eng d (fs1 @ fs2))
       \<and> (\<forall>e. snd (extract_text_body f (snd (file_type_of f mime))) = Inl e \<longrightarrow>
             snd (extract_text f) = Inr None \<and> ERROR \<in> set (fst (extract_text f)))"
proof -
  have a: "snd (detect_file eng d f) = Inr []" and b: "ERROR \<in> set (fst (detect_file eng d f))"
    using assms by (auto simp: detect_file_def split: prod.splits)
  have c: "snd (extract_text f) = Inr None \<and> ERROR \<in> set (fst (extract_text f))"
    if "snd (extract_text_body f (snd (file_type_of f mime))) = Inl e" for e
    using assms(1) that by (auto simp: extract_text_def get_file_type_def split: prod.splits)
  from a b c scan_skips [OF a] show ?thesis by blast
qed

theorem extraction_failure_is_a_value_witness:
  "magic_from_file broken_text_file = Inr ''text/plain''
   \<and> snd (detect_file_text broken_text_file ''text/plain'') = Inl UnicodeDecodeError
   \<and> detect_file sample_engine example_detector broken_text_file = ([DEBUG, DEBUG, ERROR, DEBUG], Inr [])
   \<and> snd (scan_files_loop sample_engine example_detector [broken_text_file, html_file]) =
       snd (scan_files_loop sample_engine example_detector [html_file])
   \<and> snd (extract_text broken_text_file) = Inr None"
proof -
  have tp: "contains ''text/plain'' (lower ''text/plain'')"
    by (simp add: lower_def lower_char_def startswith_def)
  have np: "\<not> contains ''pdf'' (lower ''text/plain'')"
    by (simp add: lower_def lower_char_def startswith_def)
  have nd: "\<not> contains ''officedocument.wordprocessingml.document'' (lower ''text/plain'')"
    by (simp add: lower_def lower_char_def startswith_def)
  have sf: "lower ''.txt'' \<noteq> ''.docx''"
    by (simp add: lower_def lower_char_def)
  have m: "magic_from_file broken_text_file = Inr ''text/plain''"
    by (simp add: broken_text_file_def)
  have t: "detect_file_text broken_text_file ''text/plain'' = ([DEBUG], Inl UnicodeDecodeError)"
    using np nd sf by (simp add: detect_file_text_def broken_text_file_def)
  then have t': "snd (detect_file_text broken_text_file ''text/plain'') = Inl UnicodeDecodeError"
    by simp
  have b: "snd (extract_text_body broken_text_file (snd (file_type_of broken_text_file ''text/plain'')))
      = Inl UnicodeDecodeError"
    using tp by (simp add: file_type_of_def Let_def extract_text_body_def extract_from_text_def
        broken_text_file_def)
  have l: "detect_file sample_engine example_detector broken_text_file = ([DEBUG, DEBUG, ERROR, DEBUG], Inr [])"
    by (simp add: detect_file_def m t)
  from extraction_failure_is_a_value [OF m t', of sample_engine example_detector "[]" "[html_file]"]
    m t' b l
  show ?thesis by simp
qed

end
